theory Spec2Isabelle
  imports Complex_Main
begin

section \<open>JSON values and Python helpers\<close>

text \<open>
  A JSON value as Python's \<open>json\<close> decoder produces it. Python's \<open>None\<close> is \<open>JNull\<close>.
  A \<open>dict\<close> is an association list in insertion order; a key is looked up with
  \<open>map_of\<close>. Strings are lists of code points below 256.
\<close>

datatype jvalue =
    JNull
  | JBool bool
  | JInt int
  | JFloat real
  | JStr string
  | JList "jvalue list"
  | JObj "(string \<times> jvalue) list"

type_synonym jdict = "(string \<times> jvalue) list"

text \<open>\<open>d.get(k, default)\<close> and \<open>d.get(k)\<close> (whose default is \<open>None\<close>).\<close>

definition dict_get_default :: "jdict \<Rightarrow> string \<Rightarrow> jvalue \<Rightarrow> jvalue" where
  "dict_get_default d k dflt = (case map_of d k of None \<Rightarrow> dflt | Some v \<Rightarrow> v)"

definition dict_get :: "jdict \<Rightarrow> string \<Rightarrow> jvalue" where
  "dict_get d k = dict_get_default d k JNull"

text \<open>
  \<open>str.isspace\<close> on one code point below 256: TAB, LF, VT, FF, CR, the four separators
  FS, GS, RS, US, the space, NEL and the no-break space.
\<close>

definition py_isspace :: "char \<Rightarrow> bool" where
  "py_isspace c = ((of_char c :: nat) \<in> {9, 10, 11, 12, 13, 28, 29, 30, 31, 32, 133, 160})"

text \<open>
  \<open>s.split()\<close> with no argument: the maximal runs of non-whitespace characters.
  \<open>split_from cur s\<close> scans \<open>s\<close> with the token \<open>cur\<close> under construction.
\<close>

fun split_from :: "string \<Rightarrow> string \<Rightarrow> string list" where
  "split_from cur [] = (if cur = [] then [] else [cur])"
| "split_from cur (c # cs) =
     (if py_isspace c
      then (if cur = [] then split_from [] cs else cur # split_from [] cs)
      else split_from (cur @ [c]) cs)"

definition py_split :: "string \<Rightarrow> string list" where
  "py_split s = split_from [] s"

text \<open>
  The whitespace that \<open>int\<close> skips around a literal: the six ASCII characters TAB, LF,
  VT, FF, CR and the space, and the whitespace beyond ASCII (here NEL and the no-break
  space). The separators FS, GS, RS and US are not skipped.
\<close>

definition int_isspace :: "char \<Rightarrow> bool" where
  "int_isspace c = ((of_char c :: nat) \<in> {9, 10, 11, 12, 13, 32, 133, 160})"

definition int_strip :: "string \<Rightarrow> string" where
  "int_strip s = rev (dropWhile int_isspace (rev (dropWhile int_isspace s)))"

definition is_digit :: "char \<Rightarrow> bool" where
  "is_digit c = (48 \<le> (of_char c :: nat) \<and> (of_char c :: nat) \<le> 57)"

definition digit_val :: "char \<Rightarrow> int" where
  "digit_val c = int (of_char c) - 48"

text \<open>
  The digit part of a decimal literal accepted by \<open>int(str)\<close>: digits, with single
  underscores allowed between two digits. \<open>prev_digit\<close> tells whether the previous
  character was a digit.
\<close>

fun digits_ok :: "bool \<Rightarrow> string \<Rightarrow> bool" where
  "digits_ok prev_digit [] = prev_digit"
| "digits_ok prev_digit (c # cs) =
     (if is_digit c then digits_ok True cs
      else if c = CHR ''_'' then prev_digit \<and> digits_ok False cs
      else False)"

definition digits_value :: "string \<Rightarrow> int" where
  "digits_value ds = foldl (\<lambda>acc c. 10 * acc + digit_val c) 0 (filter is_digit ds)"

text \<open>
  The digits of a literal, read in base 10; more than 4300 digits (the default limit of
  the interpreter) are refused.
\<close>

definition int_of_digits :: "string \<Rightarrow> int option" where
  "int_of_digits ds =
     (if digits_ok False ds \<and> length (filter is_digit ds) \<le> 4300
      then Some (digits_value ds) else None)"

text \<open>
  \<open>int(s)\<close> for a string \<open>s\<close>, base 10: surrounding whitespace is skipped, then an
  optional sign, then the digits. \<open>None\<close> stands for \<open>ValueError\<close>.
\<close>

definition py_int :: "string \<Rightarrow> int option" where
  "py_int s =
     (case int_strip s of
        [] \<Rightarrow> None
      | c # cs \<Rightarrow>
          if c = CHR ''-'' then map_option uminus (int_of_digits cs)
          else if c = CHR ''+'' then int_of_digits cs
          else int_of_digits (c # cs))"

text \<open>\<open>str(n)\<close> for an integer.\<close>

fun str_nat :: "nat \<Rightarrow> string" where
  "str_nat n =
     (if n < 10 then [char_of (48 + n)]
      else str_nat (n div 10) @ [char_of (48 + n mod 10)])"

declare str_nat.simps [simp del]

definition py_str :: "int \<Rightarrow> string" where
  "py_str i = (if i < 0 then CHR ''-'' # str_nat (nat (- i)) else str_nat (nat i))"

section \<open>Exceptions\<close>

text \<open>
  The classes of \<open>exceptions.py\<close>, one constructor each, with the attributes their
  \<open>__init__\<close> stores, and the \<open>ValueError\<close> and \<open>OverflowError\<close> of the builtins
  \<open>int\<close> and \<open>time.sleep\<close>.
  The message of a \<open>TensalisAPIError\<close> is whatever JSON value the body holds under
  \<open>error\<close>.
\<close>

datatype error =
    TensalisError string
  | TensalisAPIError jvalue int jdict
  | TensalisAuthenticationError string jdict
  | TensalisRateLimitError string int jdict
  | TensalisTimeoutError string
  | TensalisValidationError string
  | TensalisConnectionError string
  | ValueError
  | OverflowError

text \<open>\<open>isinstance(e, TensalisRateLimitError)\<close>, \<open>isinstance(e, TensalisValidationError)\<close>.\<close>

fun is_rate_limit_error :: "error \<Rightarrow> bool" where
  "is_rate_limit_error (TensalisRateLimitError m r d) = True"
| "is_rate_limit_error e = False"


section \<open>The verdict: \<open>VerificationResult\<close>\<close>

datatype VerificationResult = VerificationResult (data: jdict)

definition status :: "VerificationResult \<Rightarrow> jvalue" where
  "status r = dict_get_default (data r) ''status'' (JStr ''VERIFIED'')"

definition severity :: "VerificationResult \<Rightarrow> jvalue" where
  "severity r = dict_get (data r) ''severity''"

definition reason :: "VerificationResult \<Rightarrow> jvalue" where
  "reason r = dict_get (data r) ''reason''"

definition confidence :: "VerificationResult \<Rightarrow> jvalue" where
  "confidence r = dict_get (data r) ''confidence''"

definition layer :: "VerificationResult \<Rightarrow> jvalue" where
  "layer r = dict_get (data r) ''layer''"

definition latency_ms :: "VerificationResult \<Rightarrow> jvalue" where
  "latency_ms r = dict_get (data r) ''latency_ms''"

definition is_blocked :: "VerificationResult \<Rightarrow> bool" where
  "is_blocked r = (status r = JStr ''BLOCKED'')"

definition is_verified :: "VerificationResult \<Rightarrow> bool" where
  "is_verified r = (status r = JStr ''VERIFIED'')"

definition to_dict :: "VerificationResult \<Rightarrow> jdict" where
  "to_dict r = data r"

section \<open>The client and its transport\<close>

record client =
  api_key :: string
  endpoint :: string
  timeout :: int
  retries :: int
  mode :: string

text \<open>One call of \<open>Session.request\<close>: its arguments.\<close>

record http_request =
  req_method :: string
  url :: string
  json :: "jdict option"
  req_timeout :: int

text \<open>
  What the code reads of a \<open>requests.Response\<close>: the status code, the
  \<open>Retry-After\<close> header when present, whether \<open>content\<close> is non-empty, and the
  body. When the content is not JSON, \<open>json_error\<close> holds the \<open>str\<close> of the
  \<open>JSONDecodeError\<close> that \<open>json()\<close> raises; otherwise \<open>body\<close> is the decoded
  content, taken to be a JSON object as the annotations of \<open>_request\<close> say.
\<close>

record http_response =
  status_code :: int
  retry_after :: "string option"
  has_content :: bool
  json_error :: "string option"
  body :: jdict

text \<open>
  \<open>response.json()\<close>: the decoded body, or \<open>Inl\<close> the message of the
  \<open>JSONDecodeError\<close> raised, which is a \<open>requests.RequestException\<close>. Empty content
  never decodes.
\<close>

definition response_json :: "http_response \<Rightarrow> string + jdict" where
  "response_json r =
     (if \<not> has_content r then Inl ''Expecting value: line 1 column 1 (char 0)''
      else case json_error r of Some msg \<Rightarrow> Inl msg | None \<Rightarrow> Inr (body r))"

text \<open>
  A call of \<open>Session.request\<close> returns a response, raises \<open>requests.Timeout\<close>, or
  raises another \<open>requests.RequestException\<close>, whose \<open>str\<close> is carried.
\<close>

datatype http_outcome =
    Response http_response
  | Timeout
  | RequestException string

text \<open>
  The server and network, as a function of the number of calls made before and of the
  request. The world keeps the requests sent and the durations slept, in order.
\<close>

type_synonym session = "nat \<Rightarrow> http_request \<Rightarrow> http_outcome"

record world =
  requests :: "http_request list"
  sleeps :: "int list"

text \<open>
  \<open>time.sleep(n)\<close> for an integer: a duration whose nanoseconds do not fit in 64 bits
  raises \<open>OverflowError\<close>, another negative duration raises \<open>ValueError\<close>.
\<close>

definition sleep :: "int \<Rightarrow> world \<Rightarrow> error + world" where
  "sleep n w =
     (if n < - 9223372036 \<or> 9223372036 < n then Inl OverflowError
      else if n < 0 then Inl ValueError
      else Inr (w\<lparr>sleeps := sleeps w @ [n]\<rparr>))"

text \<open>
  What the \<open>try\<close> statement of one attempt does with the outcome of
  \<open>Session.request\<close>: it returns the decoded body, lets an exception escape, takes
  \<open>continue\<close> after the sleep of a 429, or catches a request exception and records the
  error that replaces it.
\<close>

datatype attempt_result =
    Returns jdict
  | Escapes error
  | Continues world
  | Handled error

definition try_attempt :: "client \<Rightarrow> http_outcome \<Rightarrow> world \<Rightarrow> attempt_result" where
  "try_attempt c outcome w1 =
     (case outcome of
        Response r \<Rightarrow>
          if status_code r = 429 then
            (case (case retry_after r of None \<Rightarrow> Some 1 | Some h \<Rightarrow> py_int h) of
               None \<Rightarrow> Escapes ValueError
             | Some n \<Rightarrow>
                 (case sleep n w1 of
                    Inl e \<Rightarrow> Escapes e
                  | Inr w2 \<Rightarrow> Continues w2))
          else if status_code r \<ge> 400 then
            (case (if has_content r then response_json r else Inr []) of
               Inl msg \<Rightarrow> Handled (TensalisError (''Request failed: '' @ msg))
             | Inr error_data \<Rightarrow>
                 Escapes (TensalisAPIError
                            (dict_get_default error_data ''error'' (JStr ''Unknown error''))
                            (status_code r) error_data))
          else
            (case response_json r of
               Inl msg \<Rightarrow> Handled (TensalisError (''Request failed: '' @ msg))
             | Inr d \<Rightarrow> Returns d)
      | Timeout \<Rightarrow>
          Handled (TensalisTimeoutError
                     (''Request timed out after '' @ py_str (timeout c) @ ''s''))
      | RequestException msg \<Rightarrow>
          Handled (TensalisError (''Request failed: '' @ msg)))"

text \<open>
  The loop of \<open>_request\<close> over the attempts still to make; \<open>last_error\<close> is the
  local of that name. A 429 sleeps and goes to the next attempt without backoff; another
  status from 400 raises at once; a timeout or another request exception is recorded and
  followed by the backoff sleep unless the attempt was the last.
\<close>

fun request_attempts ::
  "client \<Rightarrow> session \<Rightarrow> http_request \<Rightarrow> nat list \<Rightarrow> error option \<Rightarrow> world
     \<Rightarrow> (error + jdict) \<times> world" where
  "request_attempts c sess rq [] last_error w =
     (Inl (case last_error of
             Some e \<Rightarrow> e
           | None \<Rightarrow> TensalisError ''Request failed after retries''), w)"
| "request_attempts c sess rq (attempt # rest) last_error w =
     (let w1 = w\<lparr>requests := requests w @ [rq]\<rparr> in
      case try_attempt c (sess (length (requests w)) rq) w1 of
        Returns d \<Rightarrow> (Inr d, w1)
      | Escapes e \<Rightarrow> (Inl e, w1)
      | Continues w2 \<Rightarrow> request_attempts c sess rq rest last_error w2
      | Handled e \<Rightarrow>
          if int attempt < retries c - 1 then
            (case sleep (2 ^ attempt) w1 of
               Inl e' \<Rightarrow> (Inl e', w1)
             | Inr w2 \<Rightarrow> request_attempts c sess rq rest (Some e) w2)
          else request_attempts c sess rq rest (Some e) w1)"

text \<open>\<open>_request(method, path, payload)\<close>: the attempts are \<open>range(self.retries)\<close>.\<close>

definition request ::
  "client \<Rightarrow> session \<Rightarrow> string \<Rightarrow> string \<Rightarrow> jdict option \<Rightarrow> world
     \<Rightarrow> (error + jdict) \<times> world" where
  "request c sess meth path payload w =
     request_attempts c sess
       \<lparr>req_method = meth, url = endpoint c @ path, json = payload, req_timeout = timeout c\<rparr>
       [0 ..< nat (retries c)] None w"

section \<open>\<open>verify\<close>\<close>

text \<open>The \<open>context\<close> argument: a string or a list of strings.\<close>

datatype context_arg = CtxStr string | CtxList "string list"

fun normalize_context :: "context_arg \<Rightarrow> string list" where
  "normalize_context (CtxStr s) = [s]"
| "normalize_context (CtxList l) = l"

definition verify_payload :: "string \<Rightarrow> string list \<Rightarrow> jdict option \<Rightarrow> jdict" where
  "verify_payload response ctx metadata =
     (let payload = [(''response'', JStr response),
                     (''reference_facts'', JList (map JStr ctx))]
      in case metadata of
           None \<Rightarrow> payload
         | Some m \<Rightarrow> if m \<noteq> [] then payload @ [(''metadata'', JObj m)] else payload)"

definition verify ::
  "client \<Rightarrow> session \<Rightarrow> string \<Rightarrow> context_arg \<Rightarrow> jdict option \<Rightarrow> world
     \<Rightarrow> (error + VerificationResult) \<times> world" where
  "verify c sess response ctx metadata w =
     (case request c sess ''POST'' ''/verify''
             (Some (verify_payload response (normalize_context ctx) metadata)) w of
        (Inl e, w') \<Rightarrow> (Inl e, w')
      | (Inr d, w') \<Rightarrow> (Inr (VerificationResult d), w'))"

section \<open>\<open>verify_stream\<close>\<close>

text \<open>
  How the generator stops: the chunk source is exhausted, the \<open>return\<close> after a
  blocked verdict is taken, or a call of \<open>verify\<close> raises.
\<close>

datatype ending = Exhausted | Returned | Raised error

text \<open>
  A run of the generator driven until it stops: the units it yielded, the number of
  chunks it pulled from the source, how it stopped, the locals \<open>accumulated\<close> and
  \<open>token_count\<close> at that moment, and the world. A consumer that stops pulling earlier
  sees a prefix of this run.
\<close>

record stream_run =
  emitted :: "jdict list"
  pulled :: nat
  ending :: ending
  accumulated :: string
  token_count :: int
  world_after :: world

definition yielded :: "jdict \<Rightarrow> stream_run \<Rightarrow> stream_run" where
  "yielded u r = r\<lparr>emitted := u # emitted r, pulled := Suc (pulled r)\<rparr>"

definition pending_unit :: "string \<Rightarrow> jdict" where
  "pending_unit chunk =
     [(''text'', JStr chunk), (''status'', JStr ''PENDING''), (''result'', JNull)]"

definition checked_unit :: "string \<Rightarrow> VerificationResult \<Rightarrow> jdict" where
  "checked_unit chunk result =
     [(''text'', JStr chunk), (''status'', status result),
      (''result'', if is_blocked result then JObj (to_dict result) else JNull)]"

text \<open>The \<open>for\<close> loop of \<open>verify_stream\<close> over the chunks still in the source.\<close>

fun stream_loop ::
  "client \<Rightarrow> session \<Rightarrow> string list \<Rightarrow> int \<Rightarrow> string \<Rightarrow> int \<Rightarrow> string list \<Rightarrow> world
     \<Rightarrow> stream_run" where
  "stream_loop c sess ctx check_interval acc tc [] w =
     \<lparr>emitted = [], pulled = 0, ending = Exhausted, accumulated = acc,
      token_count = tc, world_after = w\<rparr>"
| "stream_loop c sess ctx check_interval acc tc (chunk # rest) w =
     (let acc' = acc @ chunk;
          tc' = tc + int (length (py_split chunk))
      in if tc' \<ge> check_interval then
           (case verify c sess acc' (CtxList ctx) None w of
              (Inl e, w') \<Rightarrow>
                \<lparr>emitted = [], pulled = 1, ending = Raised e, accumulated = acc',
                 token_count = tc', world_after = w'\<rparr>
            | (Inr result, w') \<Rightarrow>
                if is_blocked result then
                  \<lparr>emitted = [checked_unit chunk result], pulled = 1, ending = Returned,
                   accumulated = acc', token_count = tc', world_after = w'\<rparr>
                else yielded (checked_unit chunk result)
                       (stream_loop c sess ctx check_interval acc' 0 rest w'))
         else yielded (pending_unit chunk)
                (stream_loop c sess ctx check_interval acc' tc' rest w))"

definition verify_stream ::
  "client \<Rightarrow> session \<Rightarrow> string list \<Rightarrow> context_arg \<Rightarrow> int \<Rightarrow> world \<Rightarrow> stream_run" where
  "verify_stream c sess response_stream ctx check_interval w =
     stream_loop c sess (normalize_context ctx) check_interval [] 0 response_stream w"

section \<open>Fixtures\<close>

text \<open>
  The client of the tests, the responses of \<open>tests/conftest.py\<close>, a server that
  answers every call with the same response, and the world before any call.
\<close>

definition test_client :: client where
  "test_client =
     \<lparr>api_key = ''test-key'', endpoint = ''https://api.tensalis.com/v1'', timeout = 30,
      retries = 3, mode = ''balanced''\<rparr>"

definition verified_response :: http_response where
  "verified_response =
     \<lparr>status_code = 200, retry_after = None, has_content = True, json_error = None,
      body = [(''status'', JStr ''VERIFIED''), (''latency_ms'', JInt 5)]\<rparr>"

definition blocked_response :: http_response where
  "blocked_response =
     \<lparr>status_code = 200, retry_after = None, has_content = True, json_error = None,
      body = [(''status'', JStr ''BLOCKED''), (''severity'', JStr ''HIGH''),
              (''reason'', JStr ''Contradiction detected''), (''confidence'', JFloat 0.94),
              (''layer'', JStr ''cascading_nli''), (''latency_ms'', JInt 12)]\<rparr>"

definition rate_limited_response :: http_response where
  "rate_limited_response =
     \<lparr>status_code = 429, retry_after = Some ''2'', has_content = False, json_error = None,
      body = []\<rparr>"

definition always :: "http_response \<Rightarrow> session" where
  "always r = (\<lambda>i rq. Response r)"

definition no_calls :: world where
  "no_calls = \<lparr>requests = [], sleeps = []\<rparr>"


section \<open>The transport loop\<close>

text \<open>
  Every request the loop sends is the one it was given, it sends at most one per attempt,
  and at least one when there is an attempt to make.
\<close>

lemma try_attempt_continues:
  "try_attempt c outcome w1 = Continues w2 \<Longrightarrow> requests w2 = requests w1"
  by (auto simp: try_attempt_def sleep_def
           split: http_outcome.splits if_splits option.splits sum.splits)

lemma request_attempts_log:
  "\<exists>k. k \<le> length atts \<and> (atts \<noteq> [] \<longrightarrow> 1 \<le> k) \<and>
       requests (snd (request_attempts c sess rq atts le w)) = requests w @ replicate k rq"
proof (induction atts arbitrary: le w)
  case Nil
  show ?case by simp
next
  case (Cons a atts)
  let ?w1 = "w\<lparr>requests := requests w @ [rq]\<rparr>"
  have ext: "\<exists>k. k \<le> length (a # atts) \<and> 1 \<le> k \<and>
        requests (snd (request_attempts c sess rq atts le' w2)) = requests w @ replicate k rq"
    if "requests w2 = requests w @ [rq]" for le' w2
  proof -
    from Cons.IH [of le' w2] obtain k where
      k: "k \<le> length atts"
         "requests (snd (request_attempts c sess rq atts le' w2)) = requests w2 @ replicate k rq"
      by blast
    have "requests w2 @ replicate k rq = requests w @ replicate (Suc k) rq"
      using that by simp
    with k show ?thesis
      by (intro exI [of _ "Suc k"]) simp
  qed
  have one: "\<exists>k. k \<le> length (a # atts) \<and> 1 \<le> k \<and> requests ?w1 = requests w @ replicate k rq"
    by (intro exI [of _ 1]) simp
  show ?case
  proof (cases "try_attempt c (sess (length (requests w)) rq) ?w1")
    case (Returns d)
    with one show ?thesis by (simp add: Let_def)
  next
    case (Escapes e)
    with one show ?thesis by (simp add: Let_def)
  next
    case (Continues w2)
    from try_attempt_continues [OF Continues] have "requests w2 = requests w @ [rq]" by simp
    from ext [OF this, of le] Continues show ?thesis by (simp add: Let_def)
  next
    case (Handled e)
    show ?thesis
    proof (cases "int a < retries c - 1")
      case False
      with Handled ext [of ?w1 "Some e"] show ?thesis by (simp add: Let_def)
    next
      case True
      show ?thesis
      proof (cases "sleep (2 ^ a) ?w1")
        case (Inl e')
        with Handled True one show ?thesis by (simp add: Let_def)
      next
        case (Inr w2)
        then have "requests w2 = requests w @ [rq]"
          by (auto simp: sleep_def split: if_splits)
        from ext [OF this, of "Some e"] Handled True Inr show ?thesis by (simp add: Let_def)
      qed
    qed
  qed
qed



section \<open>The verdict predicates\<close>

text \<open>
  C6 (as amended). On every payload \<open>d\<close>: \<open>is_blocked\<close> holds exactly when the payload
  holds the status \<open>BLOCKED\<close>; \<open>is_verified\<close> holds exactly when the status accessor
  gives \<open>VERIFIED\<close>, which is when the payload has no \<open>status\<close> key or holds
  \<open>VERIFIED\<close> under it; so an absent status implies \<open>is_verified\<close>. The converse
  implication is not claimed.
\<close>

theorem verdict_predicates:
  "is_blocked (VerificationResult d) = (status (VerificationResult d) = JStr ''BLOCKED'')
   \<and> is_blocked (VerificationResult d) = (map_of d ''status'' = Some (JStr ''BLOCKED''))
   \<and> is_verified (VerificationResult d) = (status (VerificationResult d) = JStr ''VERIFIED'')
   \<and> is_verified (VerificationResult d) =
       (map_of d ''status'' = None \<or> map_of d ''status'' = Some (JStr ''VERIFIED''))
   \<and> (map_of d ''status'' = None \<longrightarrow>
         status (VerificationResult d) = JStr ''VERIFIED'' \<and> is_verified (VerificationResult d))"
  by (auto simp: is_blocked_def is_verified_def status_def dict_get_default_def
           split: option.splits)

theorem verdict_predicates_witness:
  "map_of [(''latency_ms'', JInt 5)] ''status'' = None
   \<and> status (VerificationResult [(''latency_ms'', JInt 5)]) = JStr ''VERIFIED''
   \<and> is_verified (VerificationResult [(''latency_ms'', JInt 5)])
   \<and> \<not> is_blocked (VerificationResult [(''latency_ms'', JInt 5)])"
  using verdict_predicates [of "[(''latency_ms'', JInt 5)]"] by simp

text \<open>
  C6 as stated fails in the direction from \<open>is_verified\<close> to an absent status: the
  verified payload of the tests is verified and has a \<open>status\<close> key.
\<close>

theorem verified_with_status_present:
  "is_verified (VerificationResult (body verified_response))
   \<and> map_of (body verified_response) ''status'' \<noteq> None"
  by (simp add: is_verified_def status_def dict_get_default_def verified_response_def)

section \<open>Errors of the transport\<close>


text \<open>
  C7, at the failing input. With the default three attempts and a server that answers
  every attempt with 429 and \<open>Retry-After: 2\<close>, \<open>verify\<close> sends three requests, sleeps
  two seconds after each, and raises the base \<open>TensalisError\<close> with the message of
  the fallback after the loop; the error is not a \<open>TensalisRateLimitError\<close>.
\<close>

theorem persistent_429_raises_generic_error:
  "verify test_client (always rate_limited_response) ''test'' (CtxList [''test'']) None no_calls =
     (Inl (TensalisError ''Request failed after retries''),
      \<lparr>requests = replicate 3
         \<lparr>req_method = ''POST'', url = ''https://api.tensalis.com/v1/verify'',
          json = Some [(''response'', JStr ''test''), (''reference_facts'', JList [JStr ''test''])],
          req_timeout = 30\<rparr>,
       sleeps = [2, 2, 2]\<rparr>)
   \<and> \<not> is_rate_limit_error (TensalisError ''Request failed after retries'')"
  by code_simp

text \<open>
  The other half of C7 holds on the same client: a 429 followed by a success is absorbed.
  One sleep of the \<open>Retry-After\<close> duration, a second request with the same payload, and
  the verdict is returned.
\<close>

lemma rate_limit_then_success_absorbed:
  "verify test_client (\<lambda>i rq. if i = 0 then Response rate_limited_response
                                else Response verified_response)
     ''test'' (CtxList [''test'']) None no_calls =
     (Inr (VerificationResult [(''status'', JStr ''VERIFIED''), (''latency_ms'', JInt 5)]),
      \<lparr>requests = replicate 2
         \<lparr>req_method = ''POST'', url = ''https://api.tensalis.com/v1/verify'',
          json = Some [(''response'', JStr ''test''), (''reference_facts'', JList [JStr ''test''])],
          req_timeout = 30\<rparr>,
       sleeps = [2]\<rparr>)"
  by code_simp

section \<open>Validation in \<open>verify\<close>\<close>




section \<open>The streaming loop\<close>

text \<open>The three keys of an emitted unit.\<close>

lemma unit_fields [simp]:
  "map_of (pending_unit chunk) ''text'' = Some (JStr chunk)"
  "map_of (pending_unit chunk) ''status'' = Some (JStr ''PENDING'')"
  "map_of (pending_unit chunk) ''result'' = Some JNull"
  "map_of (checked_unit chunk v) ''text'' = Some (JStr chunk)"
  "map_of (checked_unit chunk v) ''status'' = Some (status v)"
  "map_of (checked_unit chunk v) ''result'' =
     Some (if is_blocked v then JObj (to_dict v) else JNull)"
  by (simp_all add: pending_unit_def checked_unit_def)

text \<open>
  A run that exhausts a prefix of the source continues on the rest from the locals and
  the world it reached.
\<close>

lemma stream_loop_append:
  "ending (stream_loop c sess ctx ci acc tc pre w) = Exhausted \<Longrightarrow>
   stream_loop c sess ctx ci acc tc (pre @ rest) w =
     (let r = stream_loop c sess ctx ci acc tc pre w;
          r2 = stream_loop c sess ctx ci (accumulated r) (token_count r) rest (world_after r)
      in r2\<lparr>emitted := emitted r @ emitted r2, pulled := pulled r + pulled r2\<rparr>)"
proof (induction pre arbitrary: acc tc w)
  case Nil
  show ?case by (simp add: Let_def)
next
  case (Cons chunk pre)
  show ?case
  proof (cases "tc + int (length (py_split chunk)) \<ge> ci")
    case False
    with Cons.prems Cons.IH [of "acc @ chunk" "tc + int (length (py_split chunk))" w]
    show ?thesis by (simp add: Let_def yielded_def)
  next
    case True
    obtain res w' where v: "verify c sess (acc @ chunk) (CtxList ctx) None w = (res, w')"
      by (cases "verify c sess (acc @ chunk) (CtxList ctx) None w")
    show ?thesis
    proof (cases res)
      case (Inl e)
      with True v Cons.prems show ?thesis by (simp add: Let_def)
    next
      case (Inr result)
      show ?thesis
      proof (cases "is_blocked result")
        case True
        with \<open>ci \<le> tc + int (length (py_split chunk))\<close> v Inr Cons.prems
        show ?thesis by (simp add: Let_def)
      next
        case False
        with \<open>ci \<le> tc + int (length (py_split chunk))\<close> v Inr Cons.prems
          Cons.IH [of "acc @ chunk" 0 w']
        show ?thesis by (simp add: Let_def yielded_def)
      qed
    qed
  qed
qed

text \<open>
  A run that ends by exhaustion pulled every chunk, yielded one unit per chunk with the
  chunk's text, none of them blocked, and accumulated the concatenation of the chunks.
\<close>

lemma stream_loop_exhausted:
  "ending (stream_loop c sess ctx ci acc tc chunks w) = Exhausted \<Longrightarrow>
     accumulated (stream_loop c sess ctx ci acc tc chunks w) = acc @ concat chunks
     \<and> pulled (stream_loop c sess ctx ci acc tc chunks w) = length chunks
     \<and> length (emitted (stream_loop c sess ctx ci acc tc chunks w)) = length chunks
     \<and> map (\<lambda>u. map_of u ''text'') (emitted (stream_loop c sess ctx ci acc tc chunks w)) =
         map (\<lambda>ch. Some (JStr ch)) chunks
     \<and> (\<forall>u \<in> set (emitted (stream_loop c sess ctx ci acc tc chunks w)).
           map_of u ''status'' \<noteq> Some (JStr ''BLOCKED''))"
proof (induction chunks arbitrary: acc tc w)
  case Nil
  show ?case by simp
next
  case (Cons chunk chunks)
  show ?case
  proof (cases "tc + int (length (py_split chunk)) \<ge> ci")
    case False
    with Cons.prems Cons.IH [of "acc @ chunk" "tc + int (length (py_split chunk))" w]
    show ?thesis by (simp add: Let_def yielded_def)
  next
    case True
    obtain res w' where v: "verify c sess (acc @ chunk) (CtxList ctx) None w = (res, w')"
      by (cases "verify c sess (acc @ chunk) (CtxList ctx) None w")
    show ?thesis
    proof (cases res)
      case (Inl e)
      with True v Cons.prems show ?thesis by (simp add: Let_def)
    next
      case (Inr result)
      show ?thesis
      proof (cases "is_blocked result")
        case True
        with \<open>ci \<le> tc + int (length (py_split chunk))\<close> v Inr Cons.prems
        show ?thesis by (simp add: Let_def)
      next
        case False
        with \<open>ci \<le> tc + int (length (py_split chunk))\<close> v Inr Cons.prems
          Cons.IH [of "acc @ chunk" 0 w']
        show ?thesis by (simp add: Let_def yielded_def is_blocked_def)
      qed
    qed
  qed
qed

text \<open>The \<open>result\<close> key of a unit is \<open>None\<close> unless its status is \<open>BLOCKED\<close>.\<close>

lemma stream_loop_result_field:
  "\<forall>u \<in> set (emitted (stream_loop c sess ctx ci acc tc chunks w)).
     (map_of u ''status'' \<noteq> Some (JStr ''BLOCKED'') \<longrightarrow> map_of u ''result'' = Some JNull)
     \<and> (map_of u ''status'' = Some (JStr ''BLOCKED'') \<longrightarrow>
          (\<exists>d. map_of u ''result'' = Some (JObj d) \<and> map_of d ''status'' = Some (JStr ''BLOCKED'')))"
proof (induction chunks arbitrary: acc tc w)
  case Nil
  show ?case by simp
next
  case (Cons chunk chunks)
  show ?case
  proof (cases "tc + int (length (py_split chunk)) \<ge> ci")
    case False
    with Cons.IH [of "acc @ chunk" "tc + int (length (py_split chunk))" w]
    show ?thesis by (simp add: Let_def yielded_def)
  next
    case True
    obtain res w' where v: "verify c sess (acc @ chunk) (CtxList ctx) None w = (res, w')"
      by (cases "verify c sess (acc @ chunk) (CtxList ctx) None w")
    show ?thesis
    proof (cases res)
      case (Inl e)
      with True v show ?thesis by (simp add: Let_def)
    next
      case (Inr result)
      show ?thesis
      proof (cases "is_blocked result")
        case True
        then have "map_of (to_dict result) ''status'' = Some (JStr ''BLOCKED'')"
          by (auto simp: is_blocked_def status_def dict_get_default_def to_dict_def
                   split: option.splits)
        with True \<open>ci \<le> tc + int (length (py_split chunk))\<close> v Inr
        show ?thesis by (simp add: Let_def is_blocked_def)
      next
        case False
        with \<open>ci \<le> tc + int (length (py_split chunk))\<close> v Inr
          Cons.IH [of "acc @ chunk" 0 w']
        show ?thesis by (simp add: Let_def yielded_def is_blocked_def)
      qed
    qed
  qed
qed

text \<open>
  C10. In every unit that \<open>verify_stream\<close> emits and whose status is not
  \<open>BLOCKED\<close> (the pass-through units and the units of a check that did not block),
  the \<open>result\<close> key holds \<open>None\<close>; a unit whose \<open>result\<close> is not \<open>None\<close> has the
  status \<open>BLOCKED\<close> and holds the payload of the blocking verdict.
\<close>

theorem result_only_when_blocked:
  "\<forall>u \<in> set (emitted (verify_stream c sess chunks ctx check_interval w)).
     (map_of u ''status'' \<noteq> Some (JStr ''BLOCKED'') \<longrightarrow> map_of u ''result'' = Some JNull)
     \<and> (map_of u ''result'' \<noteq> Some JNull \<longrightarrow>
          map_of u ''status'' = Some (JStr ''BLOCKED'')
          \<and> (\<exists>d. map_of u ''result'' = Some (JObj d)
                 \<and> map_of d ''status'' = Some (JStr ''BLOCKED'')))"
  unfolding verify_stream_def
  using stream_loop_result_field
          [of c sess "normalize_context ctx" check_interval "[]" 0 chunks w]
  by blast

theorem result_only_when_blocked_witness:
  "emitted (verify_stream test_client
              (\<lambda>i rq. if i = 0 then Response verified_response else Response blocked_response)
              [''a b '', ''c '', ''d e ''] (CtxStr ''x'') 2 no_calls) =
     [[(''text'', JStr ''a b ''), (''status'', JStr ''VERIFIED''), (''result'', JNull)],
      [(''text'', JStr ''c ''), (''status'', JStr ''PENDING''), (''result'', JNull)],
      [(''text'', JStr ''d e ''), (''status'', JStr ''BLOCKED''),
       (''result'', JObj (body blocked_response))]]
   \<and> map_of [(''text'', JStr ''a b ''), (''status'', JStr ''VERIFIED''), (''result'', JNull)]
         ''result'' = Some JNull
   \<and> map_of [(''text'', JStr ''c ''), (''status'', JStr ''PENDING''), (''result'', JNull)]
         ''result'' = Some JNull
   \<and> map_of [(''text'', JStr ''d e ''), (''status'', JStr ''BLOCKED''),
              (''result'', JObj (body blocked_response))] ''status'' = Some (JStr ''BLOCKED'')"
proof -
  have e: "emitted (verify_stream test_client
              (\<lambda>i rq. if i = 0 then Response verified_response else Response blocked_response)
              [''a b '', ''c '', ''d e ''] (CtxStr ''x'') 2 no_calls) =
     [[(''text'', JStr ''a b ''), (''status'', JStr ''VERIFIED''), (''result'', JNull)],
      [(''text'', JStr ''c ''), (''status'', JStr ''PENDING''), (''result'', JNull)],
      [(''text'', JStr ''d e ''), (''status'', JStr ''BLOCKED''),
       (''result'', JObj (body blocked_response))]]"
    by code_simp
  from result_only_when_blocked
         [of test_client
             "\<lambda>i rq. if i = 0 then Response verified_response else Response blocked_response"
             "[''a b '', ''c '', ''d e '']" "CtxStr ''x''" 2 no_calls]
  show ?thesis unfolding e by simp
qed

section \<open>Blocked verdicts\<close>

text \<open>
  After a prefix of the source that was consumed without a block or an error, the run
  goes on from the accumulated text, the token counter and the world it reached.
\<close>

lemma verify_stream_continue:
  assumes "ending (verify_stream c sess pre ctx ci w) = Exhausted"
  shows "verify_stream c sess (pre @ rest) ctx ci w =
     (let r = verify_stream c sess pre ctx ci w;
          r2 = stream_loop c sess (normalize_context ctx) ci (concat pre) (token_count r) rest
                 (world_after r)
      in r2\<lparr>emitted := emitted r @ emitted r2, pulled := length pre + pulled r2\<rparr>)"
proof -
  from assms have e: "ending (stream_loop c sess (normalize_context ctx) ci [] 0 pre w) = Exhausted"
    by (simp add: verify_stream_def)
  from stream_loop_exhausted [OF e]
  have "accumulated (stream_loop c sess (normalize_context ctx) ci [] 0 pre w) = concat pre"
    and "pulled (stream_loop c sess (normalize_context ctx) ci [] 0 pre w) = length pre"
    by simp_all
  with stream_loop_append [OF e, of rest] show ?thesis
    by (simp add: verify_stream_def Let_def)
qed

text \<open>The whole run when the check on the chunk after such a prefix is blocked.\<close>

lemma verify_stream_blocked_step:
  assumes ex: "ending (verify_stream c sess pre ctx ci w) = Exhausted"
    and thr: "ci \<le> token_count (verify_stream c sess pre ctx ci w) + int (length (py_split chunk))"
    and call: "verify c sess (concat pre @ chunk) (CtxList (normalize_context ctx)) None
                 (world_after (verify_stream c sess pre ctx ci w)) = (Inr v, w')"
    and blk: "is_blocked v"
  shows "verify_stream c sess (pre @ chunk # rest) ctx ci w =
     \<lparr>emitted = emitted (verify_stream c sess pre ctx ci w) @ [checked_unit chunk v],
      pulled = Suc (length pre), ending = Returned,
      accumulated = concat pre @ chunk,
      token_count = token_count (verify_stream c sess pre ctx ci w) + int (length (py_split chunk)),
      world_after = w'\<rparr>"
  using thr call blk by (simp add: verify_stream_continue [OF ex] Let_def)

text \<open>
  C1. Let a prefix \<open>pre\<close> of the source be consumed without a block or an error, let
  the next chunk bring the token counter to the check interval, and let the
  verification call made then return a blocked verdict \<open>v\<close>, leaving the world
  \<open>w'\<close>. Then, whatever chunks \<open>rest\<close> remain in the source: the units emitted are
  those of the prefix, none of them blocked, followed by exactly one unit with status
  \<open>BLOCKED\<close>; the generator returns; it has pulled the prefix and this chunk and no
  chunk of \<open>rest\<close>; the world is the one the blocked call left, so no further request
  was sent; and the whole run is the run on the source cut after this chunk.
\<close>

theorem blocked_verdict_ends_stream:
  assumes ex: "ending (verify_stream c sess pre ctx ci w) = Exhausted"
    and thr: "ci \<le> token_count (verify_stream c sess pre ctx ci w) + int (length (py_split chunk))"
    and call: "verify c sess (concat pre @ chunk) (CtxList (normalize_context ctx)) None
                 (world_after (verify_stream c sess pre ctx ci w)) = (Inr v, w')"
    and blk: "is_blocked v"
  shows "emitted (verify_stream c sess (pre @ chunk # rest) ctx ci w) =
           emitted (verify_stream c sess pre ctx ci w) @ [checked_unit chunk v]
     \<and> map_of (checked_unit chunk v) ''status'' = Some (JStr ''BLOCKED'')
     \<and> (\<forall>u \<in> set (emitted (verify_stream c sess pre ctx ci w)).
           map_of u ''status'' \<noteq> Some (JStr ''BLOCKED''))
     \<and> ending (verify_stream c sess (pre @ chunk # rest) ctx ci w) = Returned
     \<and> pulled (verify_stream c sess (pre @ chunk # rest) ctx ci w) = Suc (length pre)
     \<and> world_after (verify_stream c sess (pre @ chunk # rest) ctx ci w) = w'
     \<and> verify_stream c sess (pre @ chunk # rest) ctx ci w =
         verify_stream c sess (pre @ [chunk]) ctx ci w"
proof -
  have st: "map_of (checked_unit chunk v) ''status'' = Some (JStr ''BLOCKED'')"
    using blk by (simp add: is_blocked_def)
  from ex have "ending (stream_loop c sess (normalize_context ctx) ci [] 0 pre w) = Exhausted"
    by (simp add: verify_stream_def)
  from stream_loop_exhausted [OF this]
  have nb: "\<forall>u \<in> set (emitted (verify_stream c sess pre ctx ci w)).
           map_of u ''status'' \<noteq> Some (JStr ''BLOCKED'')"
    by (simp add: verify_stream_def)
  show ?thesis
    using st nb
    by (simp add: verify_stream_blocked_step [OF ex thr call blk, of rest]
                  verify_stream_blocked_step [OF ex thr call blk, of "[]"])
qed

theorem blocked_verdict_ends_stream_witness:
  "ending (verify_stream test_client (always blocked_response) [''a ''] (CtxStr ''x'') 2 no_calls)
     = Exhausted
   \<and> 2 \<le> token_count (verify_stream test_client (always blocked_response) [''a '']
                         (CtxStr ''x'') 2 no_calls) + int (length (py_split ''b ''))
   \<and> verify test_client (always blocked_response) (concat [''a ''] @ ''b '')
        (CtxList (normalize_context (CtxStr ''x''))) None
        (world_after (verify_stream test_client (always blocked_response) [''a '']
                        (CtxStr ''x'') 2 no_calls)) =
       (Inr (VerificationResult (body blocked_response)),
        \<lparr>requests =
           [\<lparr>req_method = ''POST'', url = ''https://api.tensalis.com/v1/verify'',
             json = Some [(''response'', JStr ''a b ''), (''reference_facts'', JList [JStr ''x''])],
             req_timeout = 30\<rparr>],
         sleeps = []\<rparr>)
   \<and> is_blocked (VerificationResult (body blocked_response))
   \<and> emitted (verify_stream test_client (always blocked_response) ([''a ''] @ ''b '' # [''c ''])
                (CtxStr ''x'') 2 no_calls) =
       emitted (verify_stream test_client (always blocked_response) [''a ''] (CtxStr ''x'') 2
                  no_calls)
       @ [checked_unit ''b '' (VerificationResult (body blocked_response))]
   \<and> ending (verify_stream test_client (always blocked_response) ([''a ''] @ ''b '' # [''c ''])
               (CtxStr ''x'') 2 no_calls) = Returned
   \<and> pulled (verify_stream test_client (always blocked_response) ([''a ''] @ ''b '' # [''c ''])
               (CtxStr ''x'') 2 no_calls) = Suc (length [''a ''])
   \<and> world_after (verify_stream test_client (always blocked_response)
                    ([''a ''] @ ''b '' # [''c '']) (CtxStr ''x'') 2 no_calls) =
       \<lparr>requests =
          [\<lparr>req_method = ''POST'', url = ''https://api.tensalis.com/v1/verify'',
            json = Some [(''response'', JStr ''a b ''), (''reference_facts'', JList [JStr ''x''])],
            req_timeout = 30\<rparr>],
        sleeps = []\<rparr>"
proof -
  have h1: "ending (verify_stream test_client (always blocked_response) [''a ''] (CtxStr ''x'') 2
                      no_calls) = Exhausted"
    by code_simp
  have h2: "2 \<le> token_count (verify_stream test_client (always blocked_response) [''a '']
                         (CtxStr ''x'') 2 no_calls) + int (length (py_split ''b ''))"
    by code_simp
  have h3: "verify test_client (always blocked_response) (concat [''a ''] @ ''b '')
        (CtxList (normalize_context (CtxStr ''x''))) None
        (world_after (verify_stream test_client (always blocked_response) [''a '']
                        (CtxStr ''x'') 2 no_calls)) =
       (Inr (VerificationResult (body blocked_response)),
        \<lparr>requests =
           [\<lparr>req_method = ''POST'', url = ''https://api.tensalis.com/v1/verify'',
             json = Some [(''response'', JStr ''a b ''), (''reference_facts'', JList [JStr ''x''])],
             req_timeout = 30\<rparr>],
         sleeps = []\<rparr>)"
    by code_simp
  have h4: "is_blocked (VerificationResult (body blocked_response))"
    by code_simp
  from blocked_verdict_ends_stream [OF h1 h2 h3 h4, of "[''c '']"] h1 h2 h3 h4
  show ?thesis by blast
qed

text \<open>
  C3 as stated fails: the unit emitted for a blocked verdict has the same three keys as
  every other unit, and its \<open>text\<close> is the raw text of the chunk that triggered the
  check.
\<close>

theorem terminal_unit_carries_chunk_text:
  "emitted (verify_stream test_client (always blocked_response) [''Returns within 90 days'']
              (CtxList [''Returns within 30 days'']) 1 no_calls) =
     [[(''text'', JStr ''Returns within 90 days''), (''status'', JStr ''BLOCKED''),
       (''result'', JObj (body blocked_response))]]
   \<and> map_of [(''text'', JStr ''Returns within 90 days''), (''status'', JStr ''BLOCKED''),
              (''result'', JObj (body blocked_response))] ''text'' =
       Some (JStr ''Returns within 90 days'')"
  by code_simp

text \<open>
  C3 (as amended). When a check inside \<open>verify_stream\<close> returns a blocked verdict, the
  last unit emitted is the terminal one: its status is \<open>BLOCKED\<close>, its \<open>result\<close> is the
  payload of the blocking verdict, and its \<open>text\<close> is the raw text of the current chunk.
\<close>

theorem terminal_unit_contents:
  assumes ex: "ending (verify_stream c sess pre ctx ci w) = Exhausted"
    and thr: "ci \<le> token_count (verify_stream c sess pre ctx ci w) + int (length (py_split chunk))"
    and call: "verify c sess (concat pre @ chunk) (CtxList (normalize_context ctx)) None
                 (world_after (verify_stream c sess pre ctx ci w)) = (Inr v, w')"
    and blk: "is_blocked v"
  shows "last (emitted (verify_stream c sess (pre @ chunk # rest) ctx ci w)) =
           [(''text'', JStr chunk), (''status'', JStr ''BLOCKED''), (''result'', JObj (data v))]"
  using blk
  by (simp add: verify_stream_blocked_step [OF ex thr call blk, of rest] checked_unit_def
                is_blocked_def to_dict_def)

theorem terminal_unit_contents_witness:
  "ending (verify_stream test_client (always blocked_response) [] (CtxStr ''x'') 1 no_calls)
     = Exhausted
   \<and> 1 \<le> token_count (verify_stream test_client (always blocked_response) []
                         (CtxStr ''x'') 1 no_calls) + int (length (py_split ''bad ''))
   \<and> verify test_client (always blocked_response) (concat [] @ ''bad '')
        (CtxList (normalize_context (CtxStr ''x''))) None
        (world_after (verify_stream test_client (always blocked_response) []
                        (CtxStr ''x'') 1 no_calls)) =
       (Inr (VerificationResult (body blocked_response)),
        \<lparr>requests =
           [\<lparr>req_method = ''POST'', url = ''https://api.tensalis.com/v1/verify'',
             json = Some [(''response'', JStr ''bad ''), (''reference_facts'', JList [JStr ''x''])],
             req_timeout = 30\<rparr>],
         sleeps = []\<rparr>)
   \<and> is_blocked (VerificationResult (body blocked_response))
   \<and> last (emitted (verify_stream test_client (always blocked_response) ([] @ ''bad '' # [''more''])
                      (CtxStr ''x'') 1 no_calls)) =
       [(''text'', JStr ''bad ''), (''status'', JStr ''BLOCKED''),
        (''result'', JObj (data (VerificationResult (body blocked_response))))]"
proof -
  have h1: "ending (verify_stream test_client (always blocked_response) [] (CtxStr ''x'') 1
                      no_calls) = Exhausted"
    by code_simp
  have h2: "1 \<le> token_count (verify_stream test_client (always blocked_response) []
                         (CtxStr ''x'') 1 no_calls) + int (length (py_split ''bad ''))"
    by code_simp
  have h3: "verify test_client (always blocked_response) (concat [] @ ''bad '')
        (CtxList (normalize_context (CtxStr ''x''))) None
        (world_after (verify_stream test_client (always blocked_response) []
                        (CtxStr ''x'') 1 no_calls)) =
       (Inr (VerificationResult (body blocked_response)),
        \<lparr>requests =
           [\<lparr>req_method = ''POST'', url = ''https://api.tensalis.com/v1/verify'',
             json = Some [(''response'', JStr ''bad ''), (''reference_facts'', JList [JStr ''x''])],
             req_timeout = 30\<rparr>],
         sleeps = []\<rparr>)"
    by code_simp
  have h4: "is_blocked (VerificationResult (body blocked_response))"
    by code_simp
  from terminal_unit_contents [OF h1 h2 h3 h4, of "[''more'']"] h1 h2 h3 h4
  show ?thesis by blast
qed

section \<open>The requests of a streaming run\<close>

text \<open>
  The requests that \<open>verify\<close> sends: at most one per attempt, at least one when the
  client has an attempt, each with the payload built from the arguments.
\<close>

lemma verify_log:
  "\<exists>k. k \<le> nat (retries c) \<and> min 1 (nat (retries c)) \<le> k \<and>
       requests (snd (verify c sess s ctx metadata w)) =
         requests w @ replicate k
           \<lparr>req_method = ''POST'', url = endpoint c @ ''/verify'',
            json = Some (verify_payload s (normalize_context ctx) metadata),
            req_timeout = timeout c\<rparr>"
proof -
  let ?rq = "\<lparr>req_method = ''POST'', url = endpoint c @ ''/verify'',
              json = Some (verify_payload s (normalize_context ctx) metadata),
              req_timeout = timeout c\<rparr>"
  have snd_eq: "snd (verify c sess s ctx metadata w) =
      snd (request_attempts c sess ?rq [0 ..< nat (retries c)] None w)"
    by (auto simp: verify_def request_def split: prod.splits sum.splits)
  from request_attempts_log [of "[0 ..< nat (retries c)]" c sess ?rq None w]
  obtain k where k: "k \<le> length [0 ..< nat (retries c)]"
    "[0 ..< nat (retries c)] \<noteq> [] \<longrightarrow> 1 \<le> k"
    "requests (snd (request_attempts c sess ?rq [0 ..< nat (retries c)] None w)) =
       requests w @ replicate k ?rq"
    by blast
  from k(1,2) have "k \<le> nat (retries c)" "min 1 (nat (retries c)) \<le> k" by auto
  with k(3) snd_eq show ?thesis by auto
qed

text \<open>
  Every request sent during the loop carries the text accumulated up to one of the
  chunks: what was accumulated before, followed by a non-empty prefix of the chunks.
\<close>

lemma stream_loop_requests:
  "\<exists>new. requests (world_after (stream_loop c sess ctx ci acc tc chunks w)) = requests w @ new
     \<and> (\<forall>rq \<in> set new. \<exists>k. 1 \<le> k \<and> k \<le> length chunks \<and>
           rq = \<lparr>req_method = ''POST'', url = endpoint c @ ''/verify'',
                 json = Some (verify_payload (acc @ concat (take k chunks)) ctx None),
                 req_timeout = timeout c\<rparr>)"
proof (induction chunks arbitrary: acc tc w)
  case Nil
  show ?case by simp
next
  case (Cons chunk chunks)
  let ?P = "\<lambda>a cs rq. \<exists>k. 1 \<le> k \<and> k \<le> length cs \<and>
           rq = \<lparr>req_method = ''POST'', url = endpoint c @ ''/verify'',
                 json = Some (verify_payload (a @ concat (take k cs)) ctx None),
                 req_timeout = timeout c\<rparr>"
  have lift: "?P acc (chunk # chunks) rq" if "?P (acc @ chunk) chunks rq" for rq
  proof -
    from that obtain k where k: "1 \<le> k" "k \<le> length chunks"
      "rq = \<lparr>req_method = ''POST'', url = endpoint c @ ''/verify'',
                 json = Some (verify_payload ((acc @ chunk) @ concat (take k chunks)) ctx None),
                 req_timeout = timeout c\<rparr>"
      by blast
    then show ?thesis by (intro exI [of _ "Suc k"]) simp
  qed
  have here: "?P acc (chunk # chunks)
      \<lparr>req_method = ''POST'', url = endpoint c @ ''/verify'',
       json = Some (verify_payload (acc @ chunk) ctx None), req_timeout = timeout c\<rparr>"
    by (intro exI [of _ 1]) simp
  show ?case
  proof (cases "tc + int (length (py_split chunk)) \<ge> ci")
    case False
    from Cons.IH [of "acc @ chunk" "tc + int (length (py_split chunk))" w]
    obtain new where
      "requests (world_after (stream_loop c sess ctx ci (acc @ chunk)
                   (tc + int (length (py_split chunk))) chunks w)) = requests w @ new"
      "\<forall>rq \<in> set new. ?P (acc @ chunk) chunks rq"
      by blast
    with False lift show ?thesis
      by (intro exI [of _ new]) (simp add: Let_def yielded_def)
  next
    case True
    obtain res w' where v: "verify c sess (acc @ chunk) (CtxList ctx) None w = (res, w')"
      by (cases "verify c sess (acc @ chunk) (CtxList ctx) None w")
    from verify_log [of c sess "acc @ chunk" "CtxList ctx" None w] v
    obtain k0 where k0: "requests w' = requests w @ replicate k0
           \<lparr>req_method = ''POST'', url = endpoint c @ ''/verify'',
            json = Some (verify_payload (acc @ chunk) ctx None), req_timeout = timeout c\<rparr>"
      by auto
    let ?first = "replicate k0
           \<lparr>req_method = ''POST'', url = endpoint c @ ''/verify'',
            json = Some (verify_payload (acc @ chunk) ctx None), req_timeout = timeout c\<rparr>"
    have first: "\<forall>rq \<in> set ?first. ?P acc (chunk # chunks) rq"
      using here by auto
    show ?thesis
    proof (cases res)
      case (Inl e)
      with True v k0 first show ?thesis
        by (intro exI [of _ ?first]) (simp add: Let_def)
    next
      case (Inr result)
      show ?thesis
      proof (cases "is_blocked result")
        case True
        with \<open>ci \<le> tc + int (length (py_split chunk))\<close> v Inr k0 first show ?thesis
          by (intro exI [of _ ?first]) (simp add: Let_def)
      next
        case False
        from Cons.IH [of "acc @ chunk" 0 w']
        obtain new where new:
          "requests (world_after (stream_loop c sess ctx ci (acc @ chunk) 0 chunks w')) =
             requests w' @ new"
          "\<forall>rq \<in> set new. ?P (acc @ chunk) chunks rq"
          by blast
        from new(2) lift have "\<forall>rq \<in> set new. ?P acc (chunk # chunks) rq" by blast
        with first have all: "\<forall>rq \<in> set (?first @ new). ?P acc (chunk # chunks) rq"
          by auto
        from False \<open>ci \<le> tc + int (length (py_split chunk))\<close> v Inr k0 new(1)
        have "requests (world_after (stream_loop c sess ctx ci acc tc (chunk # chunks) w)) =
                requests w @ (?first @ new)"
          by (simp add: Let_def yielded_def)
        with all show ?thesis by blast
      qed
    qed
  qed
qed

section \<open>Context normalization\<close>

text \<open>
  C9. For every response text \<open>s\<close> and string context \<open>x\<close>, \<open>verify\<close> with the
  string gives the same result and leaves the same world (the same requests sent, the
  same sleeps) as \<open>verify\<close> with the one-element list; the payload it hands to the
  transport holds the singleton list under \<open>reference_facts\<close>; \<open>verify_stream\<close>
  with the string runs as \<open>verify_stream\<close> with the one-element list; and every
  request that a streaming run with the string context sends carries, next to the text
  of a non-empty prefix of the chunks, the singleton list under \<open>reference_facts\<close>.
\<close>

theorem string_context_is_singleton:
  "verify c sess s (CtxStr x) metadata w = verify c sess s (CtxList [x]) metadata w
   \<and> verify c sess s (CtxStr x) metadata w =
       (case request c sess ''POST'' ''/verify'' (Some (verify_payload s [x] metadata)) w of
          (Inl e, w') \<Rightarrow> (Inl e, w')
        | (Inr d, w') \<Rightarrow> (Inr (VerificationResult d), w'))
   \<and> map_of (verify_payload s [x] metadata) ''reference_facts'' = Some (JList [JStr x])
   \<and> verify_stream c sess chunks (CtxStr x) check_interval w =
       verify_stream c sess chunks (CtxList [x]) check_interval w
   \<and> (\<exists>new. requests (world_after (verify_stream c sess chunks (CtxStr x) check_interval w)) =
               requests w @ new
        \<and> (\<forall>rq \<in> set new. \<exists>k. 1 \<le> k \<and> k \<le> length chunks \<and>
              rq = \<lparr>req_method = ''POST'', url = endpoint c @ ''/verify'',
                    json = Some [(''response'', JStr (concat (take k chunks))),
                                 (''reference_facts'', JList [JStr x])],
                    req_timeout = timeout c\<rparr>))
   \<and> (\<exists>k. k \<le> nat (retries c) \<and> min 1 (nat (retries c)) \<le> k \<and>
          requests (snd (verify c sess s (CtxStr x) None w)) =
            requests w @ replicate k
              \<lparr>req_method = ''POST'', url = endpoint c @ ''/verify'',
               json = Some [(''response'', JStr s), (''reference_facts'', JList [JStr x])],
               req_timeout = timeout c\<rparr>)"
proof -
  have a: "verify c sess s (CtxStr x) metadata w = verify c sess s (CtxList [x]) metadata w
   \<and> verify c sess s (CtxStr x) metadata w =
       (case request c sess ''POST'' ''/verify'' (Some (verify_payload s [x] metadata)) w of
          (Inl e, w') \<Rightarrow> (Inl e, w')
        | (Inr d, w') \<Rightarrow> (Inr (VerificationResult d), w'))
   \<and> map_of (verify_payload s [x] metadata) ''reference_facts'' = Some (JList [JStr x])
   \<and> verify_stream c sess chunks (CtxStr x) check_interval w =
       verify_stream c sess chunks (CtxList [x]) check_interval w"
    by (simp add: verify_def verify_stream_def verify_payload_def Let_def split: option.splits)
  have b: "\<exists>new. requests (world_after (verify_stream c sess chunks (CtxStr x) check_interval w)) =
               requests w @ new
        \<and> (\<forall>rq \<in> set new. \<exists>k. 1 \<le> k \<and> k \<le> length chunks \<and>
              rq = \<lparr>req_method = ''POST'', url = endpoint c @ ''/verify'',
                    json = Some [(''response'', JStr (concat (take k chunks))),
                                 (''reference_facts'', JList [JStr x])],
                    req_timeout = timeout c\<rparr>)"
    using stream_loop_requests [of c sess "[x]" check_interval "[]" 0 chunks w]
    by (simp add: verify_stream_def verify_payload_def)
  have d: "\<exists>k. k \<le> nat (retries c) \<and> min 1 (nat (retries c)) \<le> k \<and>
          requests (snd (verify c sess s (CtxStr x) None w)) =
            requests w @ replicate k
              \<lparr>req_method = ''POST'', url = endpoint c @ ''/verify'',
               json = Some [(''response'', JStr s), (''reference_facts'', JList [JStr x])],
               req_timeout = timeout c\<rparr>"
    using verify_log [of c sess s "CtxStr x" None w]
    by (simp add: verify_payload_def)
  from a b d show ?thesis by blast
qed

theorem string_context_is_singleton_witness:
  "requests (world_after (verify_stream test_client (always verified_response)
                            [''a '', ''b '', ''c '', ''d ''] (CtxStr ''x'') 2 no_calls)) =
     [\<lparr>req_method = ''POST'', url = ''https://api.tensalis.com/v1/verify'',
       json = Some [(''response'', JStr ''a b ''), (''reference_facts'', JList [JStr ''x''])],
       req_timeout = 30\<rparr>,
      \<lparr>req_method = ''POST'', url = ''https://api.tensalis.com/v1/verify'',
       json = Some [(''response'', JStr ''a b c d ''), (''reference_facts'', JList [JStr ''x''])],
       req_timeout = 30\<rparr>]
   \<and> verify_stream test_client (always verified_response) [''a '', ''b '', ''c '', ''d '']
        (CtxStr ''x'') 2 no_calls =
       verify_stream test_client (always verified_response) [''a '', ''b '', ''c '', ''d '']
        (CtxList [''x'']) 2 no_calls"
proof -
  have r: "requests (world_after (verify_stream test_client (always verified_response)
                            [''a '', ''b '', ''c '', ''d ''] (CtxStr ''x'') 2 no_calls)) =
     [\<lparr>req_method = ''POST'', url = ''https://api.tensalis.com/v1/verify'',
       json = Some [(''response'', JStr ''a b ''), (''reference_facts'', JList [JStr ''x''])],
       req_timeout = 30\<rparr>,
      \<lparr>req_method = ''POST'', url = ''https://api.tensalis.com/v1/verify'',
       json = Some [(''response'', JStr ''a b c d ''), (''reference_facts'', JList [JStr ''x''])],
       req_timeout = 30\<rparr>]"
    by code_simp
  from string_context_is_singleton
         [of test_client "always verified_response" "''''" "''x''" None no_calls
             "[''a '', ''b '', ''c '', ''d '']" 2] r
  show ?thesis by blast
qed

section \<open>The text a check verifies\<close>

text \<open>The run on a source that ends one chunk after a prefix consumed without incident.\<close>

lemma verify_stream_snoc:
  assumes ex: "ending (verify_stream c sess pre ctx ci w) = Exhausted"
  shows "verify_stream c sess (pre @ [chunk]) ctx ci w =
     (if token_count (verify_stream c sess pre ctx ci w) + int (length (py_split chunk)) < ci
      then \<lparr>emitted = emitted (verify_stream c sess pre ctx ci w) @ [pending_unit chunk],
            pulled = Suc (length pre), ending = Exhausted,
            accumulated = concat pre @ chunk,
            token_count =
              token_count (verify_stream c sess pre ctx ci w) + int (length (py_split chunk)),
            world_after = world_after (verify_stream c sess pre ctx ci w)\<rparr>
      else case verify c sess (concat pre @ chunk) (CtxList (normalize_context ctx)) None
                  (world_after (verify_stream c sess pre ctx ci w)) of
             (Inl e, w') \<Rightarrow>
               \<lparr>emitted = emitted (verify_stream c sess pre ctx ci w),
                pulled = Suc (length pre), ending = Raised e,
                accumulated = concat pre @ chunk,
                token_count =
                  token_count (verify_stream c sess pre ctx ci w) + int (length (py_split chunk)),
                world_after = w'\<rparr>
           | (Inr v, w') \<Rightarrow>
               \<lparr>emitted = emitted (verify_stream c sess pre ctx ci w) @ [checked_unit chunk v],
                pulled = Suc (length pre),
                ending = (if is_blocked v then Returned else Exhausted),
                accumulated = concat pre @ chunk,
                token_count =
                  (if is_blocked v
                   then token_count (verify_stream c sess pre ctx ci w)
                          + int (length (py_split chunk))
                   else 0),
                world_after = w'\<rparr>)"
  by (simp add: verify_stream_continue [OF ex] Let_def yielded_def
           split: prod.splits sum.splits)

text \<open>
  C2. Let a prefix \<open>pre\<close> of the source be consumed without a block or an error, and
  let the next chunk bring the token counter to the check interval. Then what the run
  does on that chunk is the call of \<open>verify\<close> on the concatenation of every chunk
  consumed so far, this one included, with the normalized context: the world after the
  chunk is the world that call leaves, the unit and the ending come from its result, and
  the requests it sends (at least one when the client has an attempt) carry that text
  and that context. Over a whole run, every request sent carries the concatenation of a
  non-empty prefix of the source and the normalized context.
\<close>

theorem check_verifies_accumulated_text:
  assumes ex: "ending (verify_stream c sess pre ctx ci w) = Exhausted"
    and thr: "ci \<le> token_count (verify_stream c sess pre ctx ci w) + int (length (py_split chunk))"
  shows "world_after (verify_stream c sess (pre @ [chunk]) ctx ci w) =
           snd (verify c sess (concat (pre @ [chunk])) (CtxList (normalize_context ctx)) None
                  (world_after (verify_stream c sess pre ctx ci w)))
     \<and> (case fst (verify c sess (concat (pre @ [chunk])) (CtxList (normalize_context ctx)) None
                     (world_after (verify_stream c sess pre ctx ci w))) of
           Inl e \<Rightarrow>
             ending (verify_stream c sess (pre @ [chunk]) ctx ci w) = Raised e
             \<and> emitted (verify_stream c sess (pre @ [chunk]) ctx ci w) =
                 emitted (verify_stream c sess pre ctx ci w)
         | Inr v \<Rightarrow>
             ending (verify_stream c sess (pre @ [chunk]) ctx ci w) =
               (if is_blocked v then Returned else Exhausted)
             \<and> emitted (verify_stream c sess (pre @ [chunk]) ctx ci w) =
                 emitted (verify_stream c sess pre ctx ci w) @ [checked_unit chunk v])
     \<and> (\<exists>k. k \<le> nat (retries c) \<and> min 1 (nat (retries c)) \<le> k \<and>
            requests (world_after (verify_stream c sess (pre @ [chunk]) ctx ci w)) =
              requests (world_after (verify_stream c sess pre ctx ci w)) @ replicate k
                \<lparr>req_method = ''POST'', url = endpoint c @ ''/verify'',
                 json = Some [(''response'', JStr (concat (pre @ [chunk]))),
                              (''reference_facts'', JList (map JStr (normalize_context ctx)))],
                 req_timeout = timeout c\<rparr>)
     \<and> (\<exists>new. requests (world_after (verify_stream c sess chunks ctx ci w)) = requests w @ new
          \<and> (\<forall>rq \<in> set new. \<exists>k. 1 \<le> k \<and> k \<le> length chunks \<and>
                rq = \<lparr>req_method = ''POST'', url = endpoint c @ ''/verify'',
                      json = Some [(''response'', JStr (concat (take k chunks))),
                                   (''reference_facts'', JList (map JStr (normalize_context ctx)))],
                      req_timeout = timeout c\<rparr>))"
proof -
  let ?r = "verify_stream c sess pre ctx ci w"
  let ?call = "verify c sess (concat (pre @ [chunk])) (CtxList (normalize_context ctx)) None
                 (world_after ?r)"
  obtain res w' where call: "?call = (res, w')" by (cases ?call)
  then have call': "verify c sess (concat pre @ chunk) (CtxList (normalize_context ctx)) None
                      (world_after ?r) = (res, w')"
    by simp
  have w: "world_after (verify_stream c sess (pre @ [chunk]) ctx ci w) = snd ?call"
    using thr call call' by (simp add: verify_stream_snoc [OF ex] split: sum.splits)
  have u: "case fst ?call of
           Inl e \<Rightarrow>
             ending (verify_stream c sess (pre @ [chunk]) ctx ci w) = Raised e
             \<and> emitted (verify_stream c sess (pre @ [chunk]) ctx ci w) = emitted ?r
         | Inr v \<Rightarrow>
             ending (verify_stream c sess (pre @ [chunk]) ctx ci w) =
               (if is_blocked v then Returned else Exhausted)
             \<and> emitted (verify_stream c sess (pre @ [chunk]) ctx ci w) =
                 emitted ?r @ [checked_unit chunk v]"
    using thr call call' by (simp add: verify_stream_snoc [OF ex] split: sum.splits)
  have l: "\<exists>k. k \<le> nat (retries c) \<and> min 1 (nat (retries c)) \<le> k \<and>
            requests (world_after (verify_stream c sess (pre @ [chunk]) ctx ci w)) =
              requests (world_after ?r) @ replicate k
                \<lparr>req_method = ''POST'', url = endpoint c @ ''/verify'',
                 json = Some [(''response'', JStr (concat (pre @ [chunk]))),
                              (''reference_facts'', JList (map JStr (normalize_context ctx)))],
                 req_timeout = timeout c\<rparr>"
    using verify_log [of c sess "concat (pre @ [chunk])" "CtxList (normalize_context ctx)" None
                         "world_after ?r"]
    unfolding w by (simp add: verify_payload_def)
  have g: "\<exists>new. requests (world_after (verify_stream c sess chunks ctx ci w)) = requests w @ new
          \<and> (\<forall>rq \<in> set new. \<exists>k. 1 \<le> k \<and> k \<le> length chunks \<and>
                rq = \<lparr>req_method = ''POST'', url = endpoint c @ ''/verify'',
                      json = Some [(''response'', JStr (concat (take k chunks))),
                                   (''reference_facts'', JList (map JStr (normalize_context ctx)))],
                      req_timeout = timeout c\<rparr>)"
    using stream_loop_requests [of c sess "normalize_context ctx" ci "[]" 0 chunks w]
    by (simp add: verify_stream_def verify_payload_def)
  from w u l g show ?thesis by blast
qed

theorem check_verifies_accumulated_text_witness:
  "ending (verify_stream test_client (always verified_response) [''a '', ''b '', ''c '']
             (CtxStr ''x'') 2 no_calls) = Exhausted
   \<and> 2 \<le> token_count (verify_stream test_client (always verified_response)
                          [''a '', ''b '', ''c ''] (CtxStr ''x'') 2 no_calls)
            + int (length (py_split ''d ''))
   \<and> world_after (verify_stream test_client (always verified_response)
                    ([''a '', ''b '', ''c ''] @ [''d '']) (CtxStr ''x'') 2 no_calls) =
       snd (verify test_client (always verified_response) (concat ([''a '', ''b '', ''c ''] @ [''d '']))
              (CtxList (normalize_context (CtxStr ''x''))) None
              (world_after (verify_stream test_client (always verified_response)
                              [''a '', ''b '', ''c ''] (CtxStr ''x'') 2 no_calls)))
   \<and> requests (snd (verify test_client (always verified_response)
                       (concat ([''a '', ''b '', ''c ''] @ [''d '']))
                       (CtxList (normalize_context (CtxStr ''x''))) None
                       (world_after (verify_stream test_client (always verified_response)
                                       [''a '', ''b '', ''c ''] (CtxStr ''x'') 2 no_calls)))) =
       [\<lparr>req_method = ''POST'', url = ''https://api.tensalis.com/v1/verify'',
         json = Some [(''response'', JStr ''a b ''), (''reference_facts'', JList [JStr ''x''])],
         req_timeout = 30\<rparr>,
        \<lparr>req_method = ''POST'', url = ''https://api.tensalis.com/v1/verify'',
         json = Some [(''response'', JStr ''a b c d ''), (''reference_facts'', JList [JStr ''x''])],
         req_timeout = 30\<rparr>]"
proof -
  have h1: "ending (verify_stream test_client (always verified_response) [''a '', ''b '', ''c '']
             (CtxStr ''x'') 2 no_calls) = Exhausted"
    by code_simp
  have h2: "2 \<le> token_count (verify_stream test_client (always verified_response)
                          [''a '', ''b '', ''c ''] (CtxStr ''x'') 2 no_calls)
            + int (length (py_split ''d ''))"
    by code_simp
  have h3: "requests (snd (verify test_client (always verified_response)
                       (concat ([''a '', ''b '', ''c ''] @ [''d '']))
                       (CtxList (normalize_context (CtxStr ''x''))) None
                       (world_after (verify_stream test_client (always verified_response)
                                       [''a '', ''b '', ''c ''] (CtxStr ''x'') 2 no_calls)))) =
       [\<lparr>req_method = ''POST'', url = ''https://api.tensalis.com/v1/verify'',
         json = Some [(''response'', JStr ''a b ''), (''reference_facts'', JList [JStr ''x''])],
         req_timeout = 30\<rparr>,
        \<lparr>req_method = ''POST'', url = ''https://api.tensalis.com/v1/verify'',
         json = Some [(''response'', JStr ''a b c d ''), (''reference_facts'', JList [JStr ''x''])],
         req_timeout = 30\<rparr>]"
    by code_simp
  from check_verifies_accumulated_text [OF h1 h2, of "[]"] h1 h2 h3
  show ?thesis by blast
qed

section \<open>The end of the source\<close>

text \<open>Chunks that keep the counter under the interval pass through without a call.\<close>

lemma stream_loop_below_threshold:
  "tc + (\<Sum>ch\<leftarrow>rem. int (length (py_split ch))) < ci \<Longrightarrow>
   stream_loop c sess ctx ci acc tc rem w =
     \<lparr>emitted = map pending_unit rem, pulled = length rem, ending = Exhausted,
      accumulated = acc @ concat rem,
      token_count = tc + (\<Sum>ch\<leftarrow>rem. int (length (py_split ch))),
      world_after = w\<rparr>"
proof (induction rem arbitrary: acc tc)
  case Nil
  show ?case by simp
next
  case (Cons chunk rem)
  have nonneg: "0 \<le> (\<Sum>ch\<leftarrow>rem. int (length (py_split ch)))"
    by (rule sum_list_nonneg) auto
  with Cons.prems have below: "tc + int (length (py_split chunk)) < ci" by simp
  from Cons.prems
  have "tc + int (length (py_split chunk)) + (\<Sum>ch\<leftarrow>rem. int (length (py_split ch))) < ci"
    by simp
  from Cons.IH [OF this, of "acc @ chunk"] below show ?case
    by (simp add: Let_def yielded_def add.assoc)
qed

text \<open>
  C5. Let a prefix \<open>pre\<close> of the source be consumed without a block or an error, and
  let the chunks \<open>rem\<close> that remain hold too few tokens to bring the counter to the
  check interval. Then the run ends by exhaustion of the source; each remaining chunk is
  passed through as a \<open>PENDING\<close> unit; every chunk is pulled; and the world at the end is
  the world after the prefix: no verification call is made for the remainder, neither
  while it is consumed nor when the source ends.
\<close>

theorem remainder_never_verified:
  assumes ex: "ending (verify_stream c sess pre ctx ci w) = Exhausted"
    and below: "token_count (verify_stream c sess pre ctx ci w)
                  + (\<Sum>ch\<leftarrow>rem. int (length (py_split ch))) < ci"
  shows "ending (verify_stream c sess (pre @ rem) ctx ci w) = Exhausted
     \<and> world_after (verify_stream c sess (pre @ rem) ctx ci w) =
         world_after (verify_stream c sess pre ctx ci w)
     \<and> emitted (verify_stream c sess (pre @ rem) ctx ci w) =
         emitted (verify_stream c sess pre ctx ci w) @ map pending_unit rem
     \<and> pulled (verify_stream c sess (pre @ rem) ctx ci w) = length pre + length rem
     \<and> accumulated (verify_stream c sess (pre @ rem) ctx ci w) = concat pre @ concat rem
     \<and> token_count (verify_stream c sess (pre @ rem) ctx ci w) =
         token_count (verify_stream c sess pre ctx ci w)
           + (\<Sum>ch\<leftarrow>rem. int (length (py_split ch)))"
  by (simp add: verify_stream_continue [OF ex] Let_def
                stream_loop_below_threshold [OF below])

theorem remainder_never_verified_witness:
  "ending (verify_stream test_client
        (\<lambda>i rq. if i = 0 then Response verified_response else Response blocked_response)
        [''a '', ''b ''] (CtxStr ''x'') 2 no_calls) = Exhausted
   \<and> token_count (verify_stream test_client
        (\<lambda>i rq. if i = 0 then Response verified_response else Response blocked_response)
        [''a '', ''b ''] (CtxStr ''x'') 2 no_calls)
       + (\<Sum>ch\<leftarrow>[''c '']. int (length (py_split ch))) < 2
   \<and> ending (verify_stream test_client
        (\<lambda>i rq. if i = 0 then Response verified_response else Response blocked_response)
        ([''a '', ''b ''] @ [''c '']) (CtxStr ''x'') 2 no_calls) = Exhausted
   \<and> emitted (verify_stream test_client
        (\<lambda>i rq. if i = 0 then Response verified_response else Response blocked_response)
        ([''a '', ''b ''] @ [''c '']) (CtxStr ''x'') 2 no_calls) =
       emitted (verify_stream test_client
        (\<lambda>i rq. if i = 0 then Response verified_response else Response blocked_response)
        [''a '', ''b ''] (CtxStr ''x'') 2 no_calls) @ map pending_unit [''c '']
   \<and> world_after (verify_stream test_client
        (\<lambda>i rq. if i = 0 then Response verified_response else Response blocked_response)
        ([''a '', ''b ''] @ [''c '']) (CtxStr ''x'') 2 no_calls) =
       world_after (verify_stream test_client
        (\<lambda>i rq. if i = 0 then Response verified_response else Response blocked_response)
        [''a '', ''b ''] (CtxStr ''x'') 2 no_calls)
   \<and> world_after (verify_stream test_client
        (\<lambda>i rq. if i = 0 then Response verified_response else Response blocked_response)
        [''a '', ''b ''] (CtxStr ''x'') 2 no_calls) =
       \<lparr>requests =
          [\<lparr>req_method = ''POST'', url = ''https://api.tensalis.com/v1/verify'',
            json = Some [(''response'', JStr ''a b ''), (''reference_facts'', JList [JStr ''x''])],
            req_timeout = 30\<rparr>],
        sleeps = []\<rparr>"
proof -
  have h1: "ending (verify_stream test_client
        (\<lambda>i rq. if i = 0 then Response verified_response else Response blocked_response)
        [''a '', ''b ''] (CtxStr ''x'') 2 no_calls) = Exhausted"
    by code_simp
  have h2: "token_count (verify_stream test_client
        (\<lambda>i rq. if i = 0 then Response verified_response else Response blocked_response)
        [''a '', ''b ''] (CtxStr ''x'') 2 no_calls)
       + (\<Sum>ch\<leftarrow>[''c '']. int (length (py_split ch))) < 2"
    by code_simp
  have h3: "world_after (verify_stream test_client
        (\<lambda>i rq. if i = 0 then Response verified_response else Response blocked_response)
        [''a '', ''b ''] (CtxStr ''x'') 2 no_calls) =
       \<lparr>requests =
          [\<lparr>req_method = ''POST'', url = ''https://api.tensalis.com/v1/verify'',
            json = Some [(''response'', JStr ''a b ''), (''reference_facts'', JList [JStr ''x''])],
            req_timeout = 30\<rparr>],
        sleeps = []\<rparr>"
    by code_simp
  from remainder_never_verified [OF h1 h2] h1 h2 h3
  show ?thesis by blast
qed

section \<open>The cadence of the checks\<close>

text \<open>
  Against a server that answers every call with a decodable success whose verdict is
  verified, a client with at least one attempt gets a verified verdict from \<open>verify\<close>.
\<close>

lemma verify_always_verified:
  assumes srv: "\<forall>i rq. \<exists>r. sess i rq = Response r \<and> status_code r < 400 \<and> has_content r
                  \<and> json_error r = None \<and> is_verified (VerificationResult (body r))"
    and att: "1 \<le> retries c"
  shows "\<exists>v w'. verify c sess s ctx metadata w = (Inr v, w') \<and> is_verified v"
proof -
  let ?rq = "\<lparr>req_method = ''POST'', url = endpoint c @ ''/verify'',
              json = Some (verify_payload s (normalize_context ctx) metadata),
              req_timeout = timeout c\<rparr>"
  from att have "0 < nat (retries c)" by simp
  then have atts: "[0 ..< nat (retries c)] = 0 # [Suc 0 ..< nat (retries c)]"
    by (simp add: upt_conv_Cons)
  from srv obtain r where r: "sess (length (requests w)) ?rq = Response r"
    "status_code r < 400" "has_content r" "json_error r = None"
    "is_verified (VerificationResult (body r))"
    by blast
  from r(1-4) have "try_attempt c (sess (length (requests w)) ?rq)
                      (w\<lparr>requests := requests w @ [?rq]\<rparr>) = Returns (body r)"
    by (simp add: try_attempt_def response_json_def)
  with atts have "request c sess ''POST'' ''/verify''
                    (Some (verify_payload s (normalize_context ctx) metadata)) w =
                  (Inr (body r), w\<lparr>requests := requests w @ [?rq]\<rparr>)"
    by (simp add: request_def Let_def)
  with r(5) show ?thesis by (simp add: verify_def)
qed

text \<open>
  Chunks of one token each, against such a server: every chunk yields a unit, none
  blocked, and the units of a check are as many as the interval fits into the tokens
  counted, the counter starting again from zero after each check.
\<close>

lemma stream_single_tokens:
  assumes srv: "\<forall>i rq. \<exists>r. sess i rq = Response r \<and> status_code r < 400 \<and> has_content r
                  \<and> json_error r = None \<and> is_verified (VerificationResult (body r))"
    and att: "1 \<le> retries c"
  shows "0 \<le> tc \<Longrightarrow> tc < ci \<Longrightarrow> \<forall>ch \<in> set chunks. length (py_split ch) = 1 \<Longrightarrow>
     ending (stream_loop c sess ctx ci acc tc chunks w) = Exhausted
     \<and> length (emitted (stream_loop c sess ctx ci acc tc chunks w)) = length chunks
     \<and> int (length (filter (\<lambda>u. map_of u ''status'' \<noteq> Some (JStr ''PENDING''))
                      (emitted (stream_loop c sess ctx ci acc tc chunks w)))) =
         (tc + int (length chunks)) div ci
     \<and> filter (\<lambda>u. map_of u ''status'' = Some (JStr ''BLOCKED''))
          (emitted (stream_loop c sess ctx ci acc tc chunks w)) = []"
proof (induction chunks arbitrary: acc tc w)
  case Nil
  then show ?case by simp
next
  case (Cons chunk chunks)
  from Cons.prems have one: "length (py_split chunk) = 1"
    and rest: "\<forall>ch \<in> set chunks. length (py_split ch) = 1"
    by simp_all
  from Cons.prems have pos: "0 < ci" by simp
  show ?case
  proof (cases "tc + 1 < ci")
    case True
    with Cons.prems have "0 \<le> tc + 1" by simp
    from Cons.IH [OF this True rest, of "acc @ chunk" w]
    have ih: "ending (stream_loop c sess ctx ci (acc @ chunk) (tc + 1) chunks w) = Exhausted"
      "length (emitted (stream_loop c sess ctx ci (acc @ chunk) (tc + 1) chunks w)) =
         length chunks"
      "int (length (filter (\<lambda>u. map_of u ''status'' \<noteq> Some (JStr ''PENDING''))
                      (emitted (stream_loop c sess ctx ci (acc @ chunk) (tc + 1) chunks w)))) =
         (tc + 1 + int (length chunks)) div ci"
      "filter (\<lambda>u. map_of u ''status'' = Some (JStr ''BLOCKED''))
          (emitted (stream_loop c sess ctx ci (acc @ chunk) (tc + 1) chunks w)) = []"
      by simp_all
    have run: "stream_loop c sess ctx ci acc tc (chunk # chunks) w =
        yielded (pending_unit chunk) (stream_loop c sess ctx ci (acc @ chunk) (tc + 1) chunks w)"
      using one True by (simp add: Let_def)
    have cnt: "(tc + int (length (chunk # chunks))) div ci =
        (tc + 1 + int (length chunks)) div ci"
      by (simp add: algebra_simps)
    show ?thesis
      unfolding run cnt using ih by (simp add: yielded_def)
  next
    case False
    with Cons.prems have eq: "tc + 1 = ci" by simp
    from verify_always_verified [OF srv att, of "acc @ chunk" "CtxList ctx" None w]
    obtain v w' where v: "verify c sess (acc @ chunk) (CtxList ctx) None w = (Inr v, w')"
      "is_verified v"
      by blast
    from v(2) have st: "status v = JStr ''VERIFIED''" and nb: "\<not> is_blocked v"
      by (simp_all add: is_verified_def is_blocked_def)
    have "(0::int) \<le> 0" by simp
    from Cons.IH [OF this pos rest, of "acc @ chunk" w']
    have ih: "ending (stream_loop c sess ctx ci (acc @ chunk) 0 chunks w') = Exhausted"
      "length (emitted (stream_loop c sess ctx ci (acc @ chunk) 0 chunks w')) = length chunks"
      "int (length (filter (\<lambda>u. map_of u ''status'' \<noteq> Some (JStr ''PENDING''))
                      (emitted (stream_loop c sess ctx ci (acc @ chunk) 0 chunks w')))) =
         int (length chunks) div ci"
      "filter (\<lambda>u. map_of u ''status'' = Some (JStr ''BLOCKED''))
          (emitted (stream_loop c sess ctx ci (acc @ chunk) 0 chunks w')) = []"
      by simp_all
    have run: "stream_loop c sess ctx ci acc tc (chunk # chunks) w =
        yielded (checked_unit chunk v) (stream_loop c sess ctx ci (acc @ chunk) 0 chunks w')"
      using one eq v(1) nb by (simp add: Let_def)
    have "tc + int (length (chunk # chunks)) = ci + int (length chunks)"
      using eq by simp
    then have "(tc + int (length (chunk # chunks))) div ci = (ci + int (length chunks)) div ci"
      by (rule arg_cong)
    also have "\<dots> = 1 + int (length chunks) div ci"
      using pos by simp
    finally have cnt: "(tc + int (length (chunk # chunks))) div ci =
        1 + int (length chunks) div ci" .
    show ?thesis
      unfolding run cnt using ih st by (simp add: yielded_def)
  qed
qed

text \<open>
  C4. After a prefix \<open>pre\<close> of the source consumed without a block or an error, what
  the next chunk does is decided by the counter after adding its tokens: under the
  interval, the chunk passes through as \<open>PENDING\<close> and the world is unchanged; from the
  interval on, \<open>verify\<close> is called, and unless the verdict is blocked the counter is
  zero afterwards. And for one hundred chunks of one token each, an interval of 25, a
  client with at least one attempt and a server whose every answer is a verified
  verdict: the run emits 100 units, exactly 4 of them with a status other than
  \<open>PENDING\<close>, none with the status \<open>BLOCKED\<close>, and ends by exhaustion of the source.
\<close>

theorem check_cadence:
  "(ending (verify_stream c sess pre ctx ci w) = Exhausted \<longrightarrow>
     verify_stream c sess (pre @ [chunk]) ctx ci w =
       (if token_count (verify_stream c sess pre ctx ci w) + int (length (py_split chunk)) < ci
        then \<lparr>emitted = emitted (verify_stream c sess pre ctx ci w) @ [pending_unit chunk],
              pulled = Suc (length pre), ending = Exhausted,
              accumulated = concat pre @ chunk,
              token_count =
                token_count (verify_stream c sess pre ctx ci w) + int (length (py_split chunk)),
              world_after = world_after (verify_stream c sess pre ctx ci w)\<rparr>
        else case verify c sess (concat pre @ chunk) (CtxList (normalize_context ctx)) None
                    (world_after (verify_stream c sess pre ctx ci w)) of
               (Inl e, w') \<Rightarrow>
                 \<lparr>emitted = emitted (verify_stream c sess pre ctx ci w),
                  pulled = Suc (length pre), ending = Raised e,
                  accumulated = concat pre @ chunk,
                  token_count =
                    token_count (verify_stream c sess pre ctx ci w)
                      + int (length (py_split chunk)),
                  world_after = w'\<rparr>
             | (Inr v, w') \<Rightarrow>
                 \<lparr>emitted = emitted (verify_stream c sess pre ctx ci w) @ [checked_unit chunk v],
                  pulled = Suc (length pre),
                  ending = (if is_blocked v then Returned else Exhausted),
                  accumulated = concat pre @ chunk,
                  token_count =
                    (if is_blocked v
                     then token_count (verify_stream c sess pre ctx ci w)
                            + int (length (py_split chunk))
                     else 0),
                  world_after = w'\<rparr>))
   \<and> ((\<forall>i rq. \<exists>r. sess i rq = Response r \<and> status_code r < 400 \<and> has_content r
                  \<and> json_error r = None \<and> is_verified (VerificationResult (body r)))
       \<and> 1 \<le> retries c \<and> length chunks = 100
       \<and> (\<forall>ch \<in> set chunks. length (py_split ch) = 1) \<longrightarrow>
         length (emitted (verify_stream c sess chunks ctx 25 w)) = 100
         \<and> length (filter (\<lambda>u. map_of u ''status'' \<noteq> Some (JStr ''PENDING''))
                     (emitted (verify_stream c sess chunks ctx 25 w))) = 4
         \<and> filter (\<lambda>u. map_of u ''status'' = Some (JStr ''BLOCKED''))
              (emitted (verify_stream c sess chunks ctx 25 w)) = []
         \<and> ending (verify_stream c sess chunks ctx 25 w) = Exhausted)"
proof (intro conjI impI)
  assume "ending (verify_stream c sess pre ctx ci w) = Exhausted"
  then show "verify_stream c sess (pre @ [chunk]) ctx ci w =
       (if token_count (verify_stream c sess pre ctx ci w) + int (length (py_split chunk)) < ci
        then \<lparr>emitted = emitted (verify_stream c sess pre ctx ci w) @ [pending_unit chunk],
              pulled = Suc (length pre), ending = Exhausted,
              accumulated = concat pre @ chunk,
              token_count =
                token_count (verify_stream c sess pre ctx ci w) + int (length (py_split chunk)),
              world_after = world_after (verify_stream c sess pre ctx ci w)\<rparr>
        else case verify c sess (concat pre @ chunk) (CtxList (normalize_context ctx)) None
                    (world_after (verify_stream c sess pre ctx ci w)) of
               (Inl e, w') \<Rightarrow>
                 \<lparr>emitted = emitted (verify_stream c sess pre ctx ci w),
                  pulled = Suc (length pre), ending = Raised e,
                  accumulated = concat pre @ chunk,
                  token_count =
                    token_count (verify_stream c sess pre ctx ci w)
                      + int (length (py_split chunk)),
                  world_after = w'\<rparr>
             | (Inr v, w') \<Rightarrow>
                 \<lparr>emitted = emitted (verify_stream c sess pre ctx ci w) @ [checked_unit chunk v],
                  pulled = Suc (length pre),
                  ending = (if is_blocked v then Returned else Exhausted),
                  accumulated = concat pre @ chunk,
                  token_count =
                    (if is_blocked v
                     then token_count (verify_stream c sess pre ctx ci w)
                            + int (length (py_split chunk))
                     else 0),
                  world_after = w'\<rparr>)"
    by (rule verify_stream_snoc)
next
  assume h: "(\<forall>i rq. \<exists>r. sess i rq = Response r \<and> status_code r < 400 \<and> has_content r
                  \<and> json_error r = None \<and> is_verified (VerificationResult (body r)))
       \<and> 1 \<le> retries c \<and> length chunks = 100
       \<and> (\<forall>ch \<in> set chunks. length (py_split ch) = 1)"
  then have srv: "\<forall>i rq. \<exists>r. sess i rq = Response r \<and> status_code r < 400 \<and> has_content r
                  \<and> json_error r = None \<and> is_verified (VerificationResult (body r))"
    and att: "1 \<le> retries c" and len: "length chunks = 100"
    and one: "\<forall>ch \<in> set chunks. length (py_split ch) = 1"
    by blast+
  have "(0::int) \<le> 0" "(0::int) < 25" by simp_all
  from stream_single_tokens [OF srv att this one, of "normalize_context ctx" "[]" w] len
  have "ending (verify_stream c sess chunks ctx 25 w) = Exhausted"
    "length (emitted (verify_stream c sess chunks ctx 25 w)) = 100"
    "int (length (filter (\<lambda>u. map_of u ''status'' \<noteq> Some (JStr ''PENDING''))
                     (emitted (verify_stream c sess chunks ctx 25 w)))) = 4"
    "filter (\<lambda>u. map_of u ''status'' = Some (JStr ''BLOCKED''))
              (emitted (verify_stream c sess chunks ctx 25 w)) = []"
    by (simp_all add: verify_stream_def)
  then show "length (emitted (verify_stream c sess chunks ctx 25 w)) = 100"
    "length (filter (\<lambda>u. map_of u ''status'' \<noteq> Some (JStr ''PENDING''))
                     (emitted (verify_stream c sess chunks ctx 25 w))) = 4"
    "filter (\<lambda>u. map_of u ''status'' = Some (JStr ''BLOCKED''))
              (emitted (verify_stream c sess chunks ctx 25 w)) = []"
    "ending (verify_stream c sess chunks ctx 25 w) = Exhausted"
    by simp_all
qed

theorem check_cadence_witness:
  "ending (verify_stream test_client (always verified_response) [''a ''] (CtxStr ''x'') 2 no_calls)
     = Exhausted
   \<and> verify_stream test_client (always verified_response) ([''a ''] @ [''b '']) (CtxStr ''x'') 2 no_calls =
       (if token_count (verify_stream test_client (always verified_response) [''a ''] (CtxStr ''x'') 2 no_calls) + int (length (py_split ''b '')) < 2
        then \<lparr>emitted = emitted (verify_stream test_client (always verified_response) [''a ''] (CtxStr ''x'') 2 no_calls) @ [pending_unit ''b ''],
              pulled = Suc (length [''a '']), ending = Exhausted,
              accumulated = concat [''a ''] @ ''b '',
              token_count =
                token_count (verify_stream test_client (always verified_response) [''a ''] (CtxStr ''x'') 2 no_calls) + int (length (py_split ''b '')),
              world_after = world_after (verify_stream test_client (always verified_response) [''a ''] (CtxStr ''x'') 2 no_calls)\<rparr>
        else case verify test_client (always verified_response) (concat [''a ''] @ ''b '') (CtxList (normalize_context (CtxStr ''x''))) None
                    (world_after (verify_stream test_client (always verified_response) [''a ''] (CtxStr ''x'') 2 no_calls)) of
               (Inl e, w') \<Rightarrow>
                 \<lparr>emitted = emitted (verify_stream test_client (always verified_response) [''a ''] (CtxStr ''x'') 2 no_calls),
                  pulled = Suc (length [''a '']), ending = Raised e,
                  accumulated = concat [''a ''] @ ''b '',
                  token_count =
                    token_count (verify_stream test_client (always verified_response) [''a ''] (CtxStr ''x'') 2 no_calls)
                      + int (length (py_split ''b '')),
                  world_after = w'\<rparr>
             | (Inr v, w') \<Rightarrow>
                 \<lparr>emitted = emitted (verify_stream test_client (always verified_response) [''a ''] (CtxStr ''x'') 2 no_calls) @ [checked_unit ''b '' v],
                  pulled = Suc (length [''a '']),
                  ending = (if is_blocked v then Returned else Exhausted),
                  accumulated = concat [''a ''] @ ''b '',
                  token_count =
                    (if is_blocked v
                     then token_count (verify_stream test_client (always verified_response) [''a ''] (CtxStr ''x'') 2 no_calls)
                            + int (length (py_split ''b ''))
                     else 0),
                  world_after = w'\<rparr>)
   \<and> length (emitted (verify_stream test_client (always verified_response) (replicate 100 ''tok '') (CtxStr ''x'') 25 no_calls)) = 100
         \<and> length (filter (\<lambda>u. map_of u ''status'' \<noteq> Some (JStr ''PENDING''))
                     (emitted (verify_stream test_client (always verified_response) (replicate 100 ''tok '') (CtxStr ''x'') 25 no_calls))) = 4
         \<and> filter (\<lambda>u. map_of u ''status'' = Some (JStr ''BLOCKED''))
              (emitted (verify_stream test_client (always verified_response) (replicate 100 ''tok '') (CtxStr ''x'') 25 no_calls)) = []
         \<and> ending (verify_stream test_client (always verified_response) (replicate 100 ''tok '') (CtxStr ''x'') 25 no_calls) = Exhausted"
proof -
  have h1: "ending (verify_stream test_client (always verified_response) [''a ''] (CtxStr ''x'') 2 no_calls)
     = Exhausted"
    by code_simp
  have srv: "\<forall>i rq. \<exists>r. always verified_response i rq = Response r \<and> status_code r < 400
                 \<and> has_content r \<and> json_error r = None
                 \<and> is_verified (VerificationResult (body r))"
    by (simp add: always_def verified_response_def is_verified_def status_def
                  dict_get_default_def)
  have att: "1 \<le> retries test_client"
    by (simp add: test_client_def)
  have len: "length (replicate 100 ''tok '') = 100"
    by simp
  have tok: "length (py_split ''tok '') = 1"
    by code_simp
  then have one: "\<forall>ch \<in> set (replicate 100 ''tok ''). length (py_split ch) = 1"
    by simp
  from check_cadence
         [of test_client "always verified_response" "[''a '']" "CtxStr ''x''" 2 no_calls
             "''b ''" "replicate 100 ''tok ''"]
       h1 srv att len one
  show ?thesis by blast
qed

end
